theory Spec2Isabelle
  imports Main
begin

section \<open>JavaScript values and string helpers\<close>

text \<open>
  The add-on (\<^verbatim>\<open>src/addon.js\<close>) is a Stremio add-on with a stream handler and a
  configure handler. Strings are modelled as lists of 8-bit characters; the case
  mapping and the character class of the regular expression only concern ASCII
  letters and digits. A JSON field that may be absent is an \<open>option\<close>
  (\<open>None\<close> is \<^verbatim>\<open>undefined\<close>). An exception is a value of \<open>js_error\<close>:
  \<open>AxiosError\<close> is a rejected request, \<open>TypeError\<close> is a property read on
  \<^verbatim>\<open>undefined\<close> or a call of a missing method.
\<close>

datatype js_error = AxiosError | TypeError

text \<open>
  The value stored in \<^verbatim>\<open>GLOBAL_DEBRID_API_KEY\<close>: a string, or what
  \<^verbatim>\<open>querystring.parse\<close> gives for a form field (absent, one string, or an array of
  strings when the key is repeated).
\<close>

datatype js_value = Undefined | Str string | Arr "string list"

fun truthy :: "js_value \<Rightarrow> bool" where
  "truthy Undefined = False"
| "truthy (Str s) = (s \<noteq> [])"
| "truthy (Arr xs) = True"

text \<open>Truthiness of a string-or-undefined field, \<^verbatim>\<open>a || b\<close> on such fields, and
  the text a template literal inserts for one.\<close>

fun truthy_field :: "string option \<Rightarrow> bool" where
  "truthy_field None = False"
| "truthy_field (Some s) = (s \<noteq> [])"

definition js_or :: "string option \<Rightarrow> string option \<Rightarrow> string option" where
  "js_or a b = (if truthy_field a then a else b)"

fun template :: "string option \<Rightarrow> string" where
  "template None = ''undefined''"
| "template (Some s) = s"

definition toLowerCase_char :: "char \<Rightarrow> char" where
  "toLowerCase_char c =
     (if 65 \<le> (of_char c :: nat) \<and> (of_char c :: nat) \<le> 90
      then char_of ((of_char c :: nat) + 32) else c)"

definition toLowerCase :: "string \<Rightarrow> string" where
  "toLowerCase s = map toLowerCase_char s"

definition endsWith :: "string \<Rightarrow> string \<Rightarrow> bool" where
  "endsWith s ext = (length ext \<le> length s \<and> drop (length s - length ext) s = ext)"

definition startsWith :: "string \<Rightarrow> string \<Rightarrow> bool" where
  "startsWith s p = (take (length p) s = p)"

text \<open>\<^verbatim>\<open>p.split('/').pop()\<close>: the part of \<open>p\<close> after its last slash.\<close>

definition split_pop :: "string \<Rightarrow> string" where
  "split_pop p = rev (takeWhile (\<lambda>c. c \<noteq> CHR ''/'') (rev p))"

section \<open>The magnet pattern\<close>

text \<open>The character class \<^verbatim>\<open>[a-zA-Z0-9]\<close>.\<close>

definition alnum :: "char \<Rightarrow> bool" where
  "alnum c =
     ((97 \<le> (of_char c :: nat) \<and> (of_char c :: nat) \<le> 122) \<or>
      (65 \<le> (of_char c :: nat) \<and> (of_char c :: nat) \<le> 90) \<or>
      (48 \<le> (of_char c :: nat) \<and> (of_char c :: nat) \<le> 57))"

text \<open>
  \<^verbatim>\<open>magnet.match(/btih:([a-zA-Z0-9]{40})/)\<close>: the leftmost position where
  \<^verbatim>\<open>btih:\<close> is followed by forty characters of the class; the result is the
  capture group, \<open>None\<close> when \<^verbatim>\<open>match\<close> returns \<^verbatim>\<open>null\<close>.
\<close>

definition match_here :: "string \<Rightarrow> string option" where
  "match_here s =
     (if take 5 s = ''btih:'' \<and> length (take 40 (drop 5 s)) = 40 \<and>
         list_all alnum (take 40 (drop 5 s))
      then Some (take 40 (drop 5 s)) else None)"

fun infoHashMatch :: "string \<Rightarrow> string option" where
  "infoHashMatch [] = None"
| "infoHashMatch (c # cs) =
     (case match_here (c # cs) of Some h \<Rightarrow> Some h | None \<Rightarrow> infoHashMatch cs)"

section \<open>Responses of the remote services\<close>

record tmdb_data =
  tmdb_title :: "string option"
  tmdb_name :: "string option"
  release_date :: "string option"
  first_air_date :: "string option"

record add_data =
  torrent_id :: "string option"

text \<open>An entry of \<^verbatim>\<open>data.files\<close>; \<open>path = None\<close> is an entry whose
  \<^verbatim>\<open>path\<close> is not a string, so that \<^verbatim>\<open>current.path.toLowerCase()\<close> throws.\<close>

record file_entry =
  path :: "string option"
  bytes :: int

record info_data =
  files :: "file_entry list option"
  links :: "string list option"

record unrestrict_data =
  stream_link :: "string option"

text \<open>
  The remote calls, as functions on a state of the outside world \<open>'w\<close>: each returns
  the error the request rejects with, or the \<^verbatim>\<open>data\<close> of the response
  (\<open>None\<close> when the response carries none), and the next state of the world.
  The arguments are the values the source puts into the URL, the body and the
  \<^verbatim>\<open>Authorization\<close> header of the request.
\<close>

record 'w network =
  tmdb_details :: "string \<Rightarrow> string \<Rightarrow> 'w \<Rightarrow> (js_error + tmdb_data option) \<times> 'w"
  addMagnet :: "string \<Rightarrow> js_value \<Rightarrow> 'w \<Rightarrow> (js_error + add_data option) \<times> 'w"
  torrents_info :: "string \<Rightarrow> js_value \<Rightarrow> 'w \<Rightarrow> (js_error + info_data option) \<times> 'w"
  unrestrict_link :: "string \<Rightarrow> js_value \<Rightarrow> 'w \<Rightarrow> (js_error + unrestrict_data option) \<times> 'w"

section \<open>The stream handler\<close>

text \<open>A stream descriptor: the object pushed onto \<^verbatim>\<open>streams\<close>, with the
  properties the object literal does not set as \<open>None\<close>.\<close>

record stream =
  url :: "string option"
  infoHash :: "string option"
  sources :: "string list option"
  title :: string

record stream_args =
  arg_type :: string
  arg_id :: string

definition videoExtensions :: "string list" where
  "videoExtensions = [''.mkv'', ''.mp4'', ''.avi'', ''.mov'', ''.webm'']"

definition is_video :: "string \<Rightarrow> bool" where
  "is_video p = list_ex (\<lambda>ext. endsWith (toLowerCase p) ext) videoExtensions"

text \<open>The callback of \<^verbatim>\<open>files.reduce\<close>, and the reduction from \<^verbatim>\<open>null\<close>.\<close>

definition mainFile_step ::
  "file_entry option \<Rightarrow> file_entry \<Rightarrow> js_error + file_entry option" where
  "mainFile_step prev current =
     (case path current of
        None \<Rightarrow> Inl TypeError
      | Some p \<Rightarrow>
          if is_video p
          then Inr (case prev of
                  None \<Rightarrow> Some current
                | Some pr \<Rightarrow> if bytes pr > bytes current then Some pr else Some current)
          else Inr prev)"

fun reduce_files ::
  "file_entry list \<Rightarrow> file_entry option \<Rightarrow> js_error + file_entry option" where
  "reduce_files [] prev = Inr prev"
| "reduce_files (current # rest) prev =
     (case mainFile_step prev current of
        Inl e \<Rightarrow> Inl e
      | Inr nxt \<Rightarrow> reduce_files rest nxt)"

definition mainFile_of :: "file_entry list \<Rightarrow> js_error + file_entry option" where
  "mainFile_of fs = reduce_files fs None"

text \<open>The peer-to-peer branch, written three times in the source with the same
  text: after a failed unlock without a ready file or link, in the \<^verbatim>\<open>catch\<close>,
  and when no key is set.\<close>

definition push_p2p :: "string option \<Rightarrow> string \<Rightarrow> stream list \<Rightarrow> stream list" where
  "push_p2p ttl magnet streams =
     (case infoHashMatch magnet of
        Some h \<Rightarrow>
          streams @ [\<lparr>url = None, infoHash = Some h, sources = Some [magnet],
                      title = ''[P2P] '' @ template ttl @ '' (Torrent)''\<rparr>]
      | None \<Rightarrow> streams)"

text \<open>The step after \<^verbatim>\<open>mainFile\<close> is chosen: the condition on the file and the
  links, the unrestrict call and the push of the direct stream.\<close>

definition unrestrict_step ::
  "'w network \<Rightarrow> js_value \<Rightarrow> string option \<Rightarrow> string \<Rightarrow> file_entry option \<Rightarrow>
   string list option \<Rightarrow> stream list \<Rightarrow> 'w \<Rightarrow> (js_error + stream list) \<times> 'w" where
  "unrestrict_step net debridApiKey ttl magnet mainFile lnks streams w =
     (case (mainFile, lnks) of
        (Some mf, Some (l # ls)) \<Rightarrow>
          (case unrestrict_link net l debridApiKey w of
             (Inl e, w') \<Rightarrow> (Inl e, w')
           | (Inr None, w') \<Rightarrow> (Inl TypeError, w')
           | (Inr (Some d), w') \<Rightarrow>
               if truthy_field (stream_link d)
               then (case path mf of
                       None \<Rightarrow> (Inl TypeError, w')
                     | Some p \<Rightarrow>
                         (Inr (streams @ [\<lparr>url = stream_link d, infoHash = None,
                                 sources = None, title = ''[RD+] '' @ split_pop p\<rparr>]), w'))
               else (Inr streams, w'))
      | _ \<Rightarrow> (Inr (push_p2p ttl magnet streams), w))"

text \<open>The body of the \<^verbatim>\<open>try\<close>: submit the magnet, inspect the torrent, choose
  the main file, unrestrict.\<close>

definition debrid_try ::
  "'w network \<Rightarrow> js_value \<Rightarrow> string option \<Rightarrow> string \<Rightarrow> stream list \<Rightarrow> 'w \<Rightarrow>
   (js_error + stream list) \<times> 'w" where
  "debrid_try net debridApiKey ttl magnet streams w =
     (case addMagnet net magnet debridApiKey w of
        (Inl e, w1) \<Rightarrow> (Inl e, w1)
      | (Inr None, w1) \<Rightarrow> (Inl TypeError, w1)
      | (Inr (Some ad), w1) \<Rightarrow>
          (case torrents_info net (template (torrent_id ad)) debridApiKey w1 of
             (Inl e, w2) \<Rightarrow> (Inl e, w2)
           | (Inr None, w2) \<Rightarrow> (Inl TypeError, w2)
           | (Inr (Some info), w2) \<Rightarrow>
               (case files info of
                  None \<Rightarrow> (Inl TypeError, w2)
                | Some fs \<Rightarrow>
                    (case mainFile_of fs of
                       Inl e \<Rightarrow> (Inl e, w2)
                     | Inr mainFile \<Rightarrow>
                         unrestrict_step net debridApiKey ttl magnet mainFile
                           (links info) streams w2))))"

text \<open>One iteration of the loop over \<^verbatim>\<open>potentialMagnetLinks\<close>.\<close>

definition process_magnet ::
  "'w network \<Rightarrow> js_value \<Rightarrow> string option \<Rightarrow> string \<Rightarrow> stream list \<times> 'w \<Rightarrow>
   stream list \<times> 'w" where
  "process_magnet net debridApiKey ttl magnet st =
     (case st of (streams, w) \<Rightarrow>
        if truthy debridApiKey
        then (case debrid_try net debridApiKey ttl magnet streams w of
                (Inr streams', w') \<Rightarrow> (streams', w')
              | (Inl debridError, w') \<Rightarrow> (push_p2p ttl magnet streams, w'))
        else (push_p2p ttl magnet streams, w))"

fun for_magnets ::
  "'w network \<Rightarrow> js_value \<Rightarrow> string option \<Rightarrow> string list \<Rightarrow> stream list \<times> 'w \<Rightarrow>
   stream list \<times> 'w" where
  "for_magnets net debridApiKey ttl [] st = st"
| "for_magnets net debridApiKey ttl (magnet # rest) st =
     for_magnets net debridApiKey ttl rest (process_magnet net debridApiKey ttl magnet st)"

text \<open>The first \<^verbatim>\<open>try\<close>/\<^verbatim>\<open>catch\<close> of the handler: the title and the year
  from the metadata service, or the fallback title.\<close>

definition contentId :: "stream_args \<Rightarrow> string" where
  "contentId args =
     (if startsWith (arg_id args) ''tt'' then drop 2 (arg_id args) else arg_id args)"

definition tmdb_kind :: "stream_args \<Rightarrow> string" where
  "tmdb_kind args = (if arg_type args = ''movie'' then ''movie'' else ''tv'')"

definition lookup_details ::
  "'w network \<Rightarrow> stream_args \<Rightarrow> 'w \<Rightarrow> (string option \<times> string) \<times> 'w" where
  "lookup_details net args w =
     (case tmdb_details net (tmdb_kind args) (contentId args) w of
        (Inr (Some d), w') \<Rightarrow>
          ((js_or (tmdb_title d) (tmdb_name d),
            take 4 (template (js_or (js_or (release_date d) (first_air_date d)) (Some [])))),
           w')
      | (_, w') \<Rightarrow> ((Some (''Content ID: '' @ arg_id args), []), w'))"

text \<open>
  The handler, with the list of candidate magnets as a parameter. It returns what the
  promise settles with: \<open>Inr\<close> the \<^verbatim>\<open>streams\<close> it resolves with, \<open>Inl\<close> an
  error it would reject with.
\<close>

definition streamHandler_on ::
  "'w network \<Rightarrow> js_value \<Rightarrow> string list \<Rightarrow> stream_args \<Rightarrow> 'w \<Rightarrow>
   (js_error + stream list) \<times> 'w" where
  "streamHandler_on net key magnets args w =
     (case lookup_details net args w of
        ((ttl, year), w1) \<Rightarrow>
          (case for_magnets net key ttl magnets ([], w1) of
             (streams, w2) \<Rightarrow> (Inr streams, w2)))"

text \<open>In the source the list is the placeholder \<^verbatim>\<open>const potentialMagnetLinks = []\<close>.\<close>

definition potentialMagnetLinks :: "string list" where
  "potentialMagnetLinks = []"

definition streamHandler ::
  "'w network \<Rightarrow> js_value \<Rightarrow> stream_args \<Rightarrow> 'w \<Rightarrow> (js_error + stream list) \<times> 'w" where
  "streamHandler net key args w = streamHandler_on net key potentialMagnetLinks args w"

section \<open>The configure handler\<close>

text \<open>
  \<^verbatim>\<open>args.body\<close> is absent, a string or a buffer; an empty string is falsy, a
  buffer is truthy whatever it holds.
\<close>

datatype req_body = NoBody | TextBody string | BufferBody string

fun body_truthy :: "req_body \<Rightarrow> bool" where
  "body_truthy NoBody = False"
| "body_truthy (TextBody s) = (s \<noteq> [])"
| "body_truthy (BufferBody s) = True"

fun body_toString :: "req_body \<Rightarrow> string" where
  "body_toString NoBody = []"
| "body_toString (TextBody s) = s"
| "body_toString (BufferBody s) = s"

record configure_args =
  arg_method :: string
  arg_body :: req_body

text \<open>The three HTML templates of the handler: the page that confirms the key was
  saved, the page that asks for a valid key, and the form.\<close>

datatype page = ConfigurationSaved | ConfigurationError | ConfigurationForm

text \<open>
  The handler on the process-wide \<^verbatim>\<open>GLOBAL_DEBRID_API_KEY\<close>: it returns the
  page it resolves with and the value of the global afterwards. The parameter
  \<open>parse_key\<close> is \<^verbatim>\<open>querystring.parse(...).DEBRID_API_KEY\<close>, a function of the
  Node library.
\<close>

definition configureHandler ::
  "(string \<Rightarrow> js_value) \<Rightarrow> configure_args \<Rightarrow> js_value \<Rightarrow> (js_error + page) \<times> js_value" where
  "configureHandler parse_key args GLOBAL_DEBRID_API_KEY =
     (if arg_method args = ''POST'' \<and> body_truthy (arg_body args)
      then (let debridApiKey = parse_key (body_toString (arg_body args))
            in if truthy debridApiKey
               then (Inr ConfigurationSaved, debridApiKey)
               else (Inr ConfigurationError, GLOBAL_DEBRID_API_KEY))
      else (Inr ConfigurationForm, GLOBAL_DEBRID_API_KEY))"

section \<open>Example services\<close>

text \<open>
  Concrete remote services for the examples; the world is a counter of the requests
  made. \<open>service_down\<close> rejects every request. \<open>service fs ls sl\<close> accepts every
  magnet as torrent \<^verbatim>\<open>T1\<close>, lists the files \<open>fs\<close> and the links \<open>ls\<close> for
  it and answers the unrestrict request with the stream link \<open>sl\<close>; its metadata
  lookup gives a title and a release date.
\<close>

definition service_down :: "nat network" where
  "service_down =
     \<lparr>tmdb_details = (\<lambda>k c w. (Inl AxiosError, Suc w)),
      addMagnet = (\<lambda>m k w. (Inl AxiosError, Suc w)),
      torrents_info = (\<lambda>t k w. (Inl AxiosError, Suc w)),
      unrestrict_link = (\<lambda>l k w. (Inl AxiosError, Suc w))\<rparr>"

definition service ::
  "file_entry list option \<Rightarrow> string list option \<Rightarrow> string option \<Rightarrow> nat network" where
  "service fs ls sl =
     \<lparr>tmdb_details = (\<lambda>k c w.
        (Inr (Some \<lparr>tmdb_title = Some ''Film'', tmdb_name = None,
                     release_date = Some ''2023-05-01'', first_air_date = None\<rparr>), Suc w)),
      addMagnet = (\<lambda>m k w. (Inr (Some \<lparr>torrent_id = Some ''T1''\<rparr>), Suc w)),
      torrents_info = (\<lambda>t k w. (Inr (Some \<lparr>files = fs, links = ls\<rparr>), Suc w)),
      unrestrict_link = (\<lambda>l k w. (Inr (Some \<lparr>stream_link = sl\<rparr>), Suc w))\<rparr>"

definition magnet_ok :: string where
  "magnet_ok = ''magnet:?xt=urn:btih:0123456789abcdef0123456789abcdef01234567&dn=Film.2023''"

definition magnet_bad :: string where
  "magnet_bad = ''magnet:?xt=urn:btih:A_REAL_MAGNET_HASH_FOR_ARABIC_CONTENT&dn=Movie.Title.2023.HDRip''"

definition magnet_nonhex :: string where
  "magnet_nonhex = ''magnet:?xt=urn:btih:zzzzzzzzzzzzzzzzzzzzzzzzzzzzzzzzzzzzzzzz''"

definition files_abc :: "file_entry list" where
  "files_abc = [\<lparr>path = Some ''a.txt'', bytes = 100\<rparr>,
                \<lparr>path = Some ''b.mkv'', bytes = 50\<rparr>,
                \<lparr>path = Some ''c.mp4'', bytes = 200\<rparr>]"

definition files_tie :: "file_entry list" where
  "files_tie = [\<lparr>path = Some ''x.mkv'', bytes = 100\<rparr>,
                \<lparr>path = Some ''dir/Y.MP4'', bytes = 100\<rparr>,
                \<lparr>path = Some ''notes.txt'', bytes = 900\<rparr>]"

text \<open>A request for the streams of \<^verbatim>\<open>tt123\<close>, the descriptors expected in the
  examples.\<close>

definition args123 :: stream_args where
  "args123 = \<lparr>arg_type = ''movie'', arg_id = ''tt123''\<rparr>"

definition p2p_ok :: "string \<Rightarrow> stream" where
  "p2p_ok ttl = \<lparr>url = None, infoHash = Some ''0123456789abcdef0123456789abcdef01234567'',
                  sources = Some [magnet_ok], title = ''[P2P] '' @ ttl @ '' (Torrent)''\<rparr>"

definition p2p_nonhex :: "string \<Rightarrow> stream" where
  "p2p_nonhex ttl = \<lparr>url = None, infoHash = Some ''zzzzzzzzzzzzzzzzzzzzzzzzzzzzzzzzzzzzzzzz'',
                  sources = Some [magnet_nonhex], title = ''[P2P] '' @ ttl @ '' (Torrent)''\<rparr>"

text \<open>
  The field \<^verbatim>\<open>DEBRID_API_KEY\<close> of \<^verbatim>\<open>querystring.parse(body)\<close>, as Node
  documents it, for a body without percent escapes and plus signs: the body is split at
  \<^verbatim>\<open>&\<close>, empty parts are skipped, each part is split at its first \<^verbatim>\<open>=\<close>
  into a key and a value (a part without \<^verbatim>\<open>=\<close> has the empty value); a key
  that occurs once gives its value, a key that occurs several times gives the array of
  its values, a key that does not occur gives \<^verbatim>\<open>undefined\<close>.
\<close>

fun split_on :: "char \<Rightarrow> string \<Rightarrow> string list" where
  "split_on c [] = [[]]"
| "split_on c (x # xs) =
     (if x = c then [] # split_on c xs
      else (case split_on c xs of
              [] \<Rightarrow> [[x]]
            | r # rs \<Rightarrow> (x # r) # rs))"

definition qs_values :: "string \<Rightarrow> string \<Rightarrow> string list" where
  "qs_values k b =
     map (\<lambda>p. drop 1 (dropWhile (\<lambda>c. c \<noteq> CHR ''='') p))
       (filter (\<lambda>p. p \<noteq> [] \<and> takeWhile (\<lambda>c. c \<noteq> CHR ''='') p = k)
          (split_on CHR ''&'' b))"

definition qs_field :: "string \<Rightarrow> js_value" where
  "qs_field b =
     (case qs_values ''DEBRID_API_KEY'' b of
        [] \<Rightarrow> Undefined
      | [v] \<Rightarrow> Str v
      | vs \<Rightarrow> Arr vs)"

definition direct_y :: stream where
  "direct_y = \<lparr>url = Some ''https://cdn.example/v/1'', infoHash = None, sources = None,
                title = ''[RD+] Y.MP4''\<rparr>"

section \<open>Notions used to state the properties\<close>

text \<open>An entry of the file list qualifies when its path is a string that ends in one
  of the video suffixes, letter case ignored.\<close>

definition video_entry :: "file_entry \<Rightarrow> bool" where
  "video_entry f = (case path f of None \<Rightarrow> False | Some p \<Rightarrow> is_video p)"

text \<open>
  \<open>selected fs m\<close>: the entry \<open>m\<close> stands at a position of \<open>fs\<close> where it
  qualifies, no qualifying entry before it is larger, and every qualifying entry after
  it is strictly smaller.
\<close>

definition selected :: "file_entry list \<Rightarrow> file_entry \<Rightarrow> bool" where
  "selected fs m =
     (\<exists>pre post. fs = pre @ m # post \<and> video_entry m \<and>
        (\<forall>f\<in>set pre. video_entry f \<longrightarrow> bytes f \<le> bytes m) \<and>
        (\<forall>f\<in>set post. video_entry f \<longrightarrow> bytes f < bytes m))"

text \<open>\<open>has_btih s h\<close>: somewhere in \<open>s\<close> the text \<^verbatim>\<open>btih:\<close> is followed by the
  forty letters or digits \<open>h\<close>.\<close>

definition has_btih :: "string \<Rightarrow> string \<Rightarrow> bool" where
  "has_btih s h =
     (\<exists>pre post. s = pre @ ''btih:'' @ h @ post \<and> length h = 40 \<and> list_all alnum h)"

text \<open>The hexadecimal digits, for comparison with the character class of the source.\<close>

definition hex_digit :: "char \<Rightarrow> bool" where
  "hex_digit c = (c \<in> set ''0123456789abcdefABCDEF'')"

text \<open>The two shapes of a stream descriptor.\<close>

definition direct_shape :: "stream \<Rightarrow> bool" where
  "direct_shape s =
     (truthy_field (url s) \<and> infoHash s = None \<and> sources s = None \<and>
      take 6 (title s) = ''[RD+] '' \<and> CHR ''/'' \<notin> set (drop 6 (title s)))"

definition p2p_shape :: "stream \<Rightarrow> bool" where
  "p2p_shape s =
     (url s = None \<and> infoHash s \<noteq> None \<and>
      (case sources s of None \<Rightarrow> False | Some xs \<Rightarrow> xs \<noteq> []) \<and>
      take 6 (title s) = ''[P2P] '')"

text \<open>A form field is non-empty when it holds a non-empty value: a non-empty string,
  or an array with a non-empty string among its values.\<close>

fun nonempty_field :: "js_value \<Rightarrow> bool" where
  "nonempty_field Undefined = False"
| "nonempty_field (Str s) = (s \<noteq> [])"
| "nonempty_field (Arr xs) = list_ex (\<lambda>x. x \<noteq> []) xs"

text \<open>
  What each candidate contributes: the descriptors its iteration pushes when it starts
  from an empty list, in the state of the world the loop has reached.
\<close>

fun contributions ::
  "'w network \<Rightarrow> js_value \<Rightarrow> string option \<Rightarrow> string list \<Rightarrow> 'w \<Rightarrow> stream list list" where
  "contributions net key ttl [] w = []"
| "contributions net key ttl (m # ms) w =
     fst (process_magnet net key ttl m ([], w)) #
     contributions net key ttl ms (snd (process_magnet net key ttl m ([], w)))"

section \<open>The choice of the main file\<close>

lemma reduce_files_snoc:
  "reduce_files (fs @ [x]) prev =
     (case reduce_files fs prev of Inl e \<Rightarrow> Inl e | Inr r \<Rightarrow> mainFile_step r x)"
  by (induction fs arbitrary: prev) (auto split: sum.splits)

lemma mainFile_step_Inl:
  "(mainFile_step r x = Inl e) = (path x = None \<and> e = TypeError)"
  by (auto simp: mainFile_step_def split: option.splits)

lemma mainFile_step_Inr:
  "mainFile_step r x = Inr r' \<Longrightarrow>
     path x \<noteq> None \<and>
     r' = (if video_entry x
           then (case r of None \<Rightarrow> Some x
                 | Some pr \<Rightarrow> if bytes pr > bytes x then Some pr else Some x)
           else r)"
  by (auto simp: mainFile_step_def video_entry_def split: option.splits if_splits)

lemma selected_snoc_keep:
  assumes "selected fs m" "video_entry x \<longrightarrow> bytes x < bytes m"
  shows "selected (fs @ [x]) m"
proof -
  from assms(1) obtain pre post where d: "fs = pre @ m # post" "video_entry m"
    "\<forall>f\<in>set pre. video_entry f \<longrightarrow> bytes f \<le> bytes m"
    "\<forall>f\<in>set post. video_entry f \<longrightarrow> bytes f < bytes m"
    unfolding selected_def by blast
  have "fs @ [x] = pre @ m # (post @ [x])" using d(1) by simp
  moreover have "\<forall>f\<in>set (post @ [x]). video_entry f \<longrightarrow> bytes f < bytes m"
    using d(4) assms(2) by auto
  ultimately show ?thesis unfolding selected_def using d(2,3) by blast
qed

lemma selected_bound:
  assumes "selected fs m" "f \<in> set fs" "video_entry f"
  shows "bytes f \<le> bytes m"
proof -
  from assms(1) obtain pre post where d: "fs = pre @ m # post"
    "\<forall>f\<in>set pre. video_entry f \<longrightarrow> bytes f \<le> bytes m"
    "\<forall>f\<in>set post. video_entry f \<longrightarrow> bytes f < bytes m"
    unfolding selected_def by blast
  from assms(2) d(1) have "f \<in> set pre \<or> f = m \<or> f \<in> set post" by auto
  then show ?thesis using d(2,3) assms(3) by force
qed

lemma selected_snoc_new:
  assumes "\<forall>f\<in>set fs. video_entry f \<longrightarrow> bytes f \<le> bytes x" "video_entry x"
  shows "selected (fs @ [x]) x"
  unfolding selected_def using assms by (intro exI[of _ fs] exI[of _ "[]"]) simp

lemma reduce_files_None_spec:
  "case reduce_files fs None of
     Inl e \<Rightarrow> e = TypeError \<and> (\<exists>f\<in>set fs. path f = None)
   | Inr None \<Rightarrow> (\<forall>f\<in>set fs. path f \<noteq> None \<and> \<not> video_entry f)
   | Inr (Some m) \<Rightarrow> (\<forall>f\<in>set fs. path f \<noteq> None) \<and> selected fs m"
proof (induction fs rule: rev_induct)
  case Nil
  show ?case by simp
next
  case (snoc x fs)
  show ?case
  proof (cases "reduce_files fs None")
    case (Inl e)
    with snoc show ?thesis by (simp add: reduce_files_snoc)
  next
    case (Inr r)
    note r = this
    show ?thesis
    proof (cases "mainFile_step r x")
      case (Inl e)
      moreover from Inl have "path x = None" "e = TypeError"
        by (simp_all add: mainFile_step_Inl)
      ultimately show ?thesis using r by (simp add: reduce_files_snoc)
    next
      case (Inr r')
      from mainFile_step_Inr[OF Inr] have px: "path x \<noteq> None"
        and r': "r' = (if video_entry x
           then (case r of None \<Rightarrow> Some x
                 | Some pr \<Rightarrow> if bytes pr > bytes x then Some pr else Some x)
           else r)" by auto
      have res: "reduce_files (fs @ [x]) None = Inr r'"
        using r Inr by (simp add: reduce_files_snoc)
      show ?thesis
      proof (cases r)
        case None
        with snoc r have ih: "\<forall>f\<in>set fs. path f \<noteq> None \<and> \<not> video_entry f" by simp
        show ?thesis
        proof (cases "video_entry x")
          case True
          then have "r' = Some x" using r' None by simp
          moreover have "selected (fs @ [x]) x"
            using selected_snoc_new[of fs x] ih True by blast
          ultimately show ?thesis using res ih px by simp
        next
          case False
          then have "r' = None" using r' None by simp
          then show ?thesis using res ih px False by simp
        qed
      next
        case (Some m)
        with snoc r have ih: "\<forall>f\<in>set fs. path f \<noteq> None" "selected fs m" by simp_all
        show ?thesis
        proof (cases "video_entry x \<and> \<not> bytes m > bytes x")
          case True
          then have "r' = Some x" using r' Some by simp
          moreover have "selected (fs @ [x]) x"
          proof (rule selected_snoc_new)
            show "\<forall>f\<in>set fs. video_entry f \<longrightarrow> bytes f \<le> bytes x"
              using selected_bound[OF ih(2)] True by fastforce
            show "video_entry x" using True by simp
          qed
          ultimately show ?thesis using res ih px by simp
        next
          case False
          then have "r' = Some m" using r' Some by auto
          moreover have "selected (fs @ [x]) m"
            using selected_snoc_keep[OF ih(2)] False by auto
          ultimately show ?thesis using res ih px by simp
        qed
      qed
    qed
  qed
qed

section \<open>The match of the magnet pattern\<close>

lemma match_here_Some:
  "(match_here s = Some h) =
     (\<exists>post. s = ''btih:'' @ h @ post \<and> length h = 40 \<and> list_all alnum h)"
proof
  assume "match_here s = Some h"
  then have a: "take 5 s = ''btih:''" "length (take 40 (drop 5 s)) = 40"
    "list_all alnum (take 40 (drop 5 s))" "h = take 40 (drop 5 s)"
    by (auto simp: match_here_def split: if_splits)
  have "s = take 5 s @ take 40 (drop 5 s) @ drop 40 (drop 5 s)"
    by (simp only: append_take_drop_id)
  then have "s = ''btih:'' @ h @ drop 40 (drop 5 s)" using a(1,4) by metis
  then show "\<exists>post. s = ''btih:'' @ h @ post \<and> length h = 40 \<and> list_all alnum h"
    using a by blast
next
  assume "\<exists>post. s = ''btih:'' @ h @ post \<and> length h = 40 \<and> list_all alnum h"
  then show "match_here s = Some h" by (auto simp: match_here_def)
qed

lemma infoHashMatch_Some: "infoHashMatch s = Some h \<Longrightarrow> has_btih s h"
proof (induction s)
  case Nil
  then show ?case by simp
next
  case (Cons c cs)
  show ?case
  proof (cases "match_here (c # cs)")
    case None
    with Cons have "has_btih cs h" by simp
    then obtain pre post where "cs = pre @ ''btih:'' @ h @ post" "length h = 40" "list_all alnum h"
      unfolding has_btih_def by blast
    then have "c # cs = (c # pre) @ ''btih:'' @ h @ post" by simp
    then show ?thesis unfolding has_btih_def using \<open>length h = 40\<close> \<open>list_all alnum h\<close> by blast
  next
    case (Some h')
    with Cons have "h' = h" by simp
    with Some obtain post where "c # cs = [] @ ''btih:'' @ h @ post" "length h = 40" "list_all alnum h"
      using match_here_Some[of "c # cs" h] by auto
    then show ?thesis unfolding has_btih_def by blast
  qed
qed

lemma infoHashMatch_None: "(infoHashMatch s = None) = (\<forall>h. \<not> has_btih s h)"
proof (induction s)
  case Nil
  show ?case by (auto simp: has_btih_def)
next
  case (Cons c cs)
  show ?case
  proof (cases "match_here (c # cs)")
    case (Some h)
    then have "has_btih (c # cs) h"
      using match_here_Some[of "c # cs" h] unfolding has_btih_def by (metis append_Nil)
    then show ?thesis using Some by auto
  next
    case None
    have "(\<exists>h. has_btih (c # cs) h) = (\<exists>h. has_btih cs h)"
    proof
      assume "\<exists>h. has_btih (c # cs) h"
      then obtain h pre post where d: "c # cs = pre @ ''btih:'' @ h @ post" "length h = 40" "list_all alnum h"
        unfolding has_btih_def by blast
      show "\<exists>h. has_btih cs h"
      proof (cases pre)
        case Nil
        then have "match_here (c # cs) = Some h" using d match_here_Some[of "c # cs" h] by auto
        with None show ?thesis by simp
      next
        case (Cons a pre')
        then have "cs = pre' @ ''btih:'' @ h @ post" using d(1) by simp
        then show ?thesis unfolding has_btih_def using d(2,3) by blast
      qed
    next
      assume "\<exists>h. has_btih cs h"
      then obtain h pre post where d: "cs = pre @ ''btih:'' @ h @ post" "length h = 40" "list_all alnum h"
        unfolding has_btih_def by blast
      then have "c # cs = (c # pre) @ ''btih:'' @ h @ post" by simp
      then show "\<exists>h. has_btih (c # cs) h" unfolding has_btih_def using d(2,3) by blast
    qed
    then have "(\<forall>h. \<not> has_btih (c # cs) h) = (\<forall>h. \<not> has_btih cs h)" by blast
    then show ?thesis using None Cons by simp
  qed
qed

section \<open>One iteration and the loop over the candidates\<close>

lemma push_p2p_append: "push_p2p t m streams = streams @ push_p2p t m []"
  by (simp add: push_p2p_def split: option.splits)

lemma push_p2p_Nil:
  "push_p2p t m [] =
     (case infoHashMatch m of
        None \<Rightarrow> []
      | Some h \<Rightarrow> [\<lparr>url = None, infoHash = Some h, sources = Some [m],
                     title = ''[P2P] '' @ template t @ '' (Torrent)''\<rparr>])"
  by (simp add: push_p2p_def split: option.splits)

lemma unrestrict_step_append:
  "unrestrict_step net k t m mf ls streams w =
     (map_sum id ((@) streams) (fst (unrestrict_step net k t m mf ls [] w)),
      snd (unrestrict_step net k t m mf ls [] w))"
  unfolding unrestrict_step_def
  by (auto simp: push_p2p_append[of t m streams] split: option.splits list.splits prod.splits sum.splits)

lemma debrid_try_append:
  "debrid_try net k t m streams w =
     (map_sum id ((@) streams) (fst (debrid_try net k t m [] w)),
      snd (debrid_try net k t m [] w))"
  unfolding debrid_try_def
  by (auto simp: unrestrict_step_append[of net k t m _ _ streams] split: option.splits prod.splits sum.splits)

lemma process_magnet_append:
  "process_magnet net k t m (streams, w) =
     (streams @ fst (process_magnet net k t m ([], w)), snd (process_magnet net k t m ([], w)))"
  unfolding process_magnet_def
  by (auto simp: push_p2p_append[of t m streams] debrid_try_append[of net k t m streams] split: prod.splits sum.splits)


lemma process_magnet_no_key:
  "\<not> truthy k \<Longrightarrow> process_magnet net k t m (streams, w) = (push_p2p t m streams, w)"
  by (simp add: process_magnet_def)

lemma unrestrict_step_cases:
  assumes "unrestrict_step net k t m mainFile ls [] w = (Inr new, w')"
  shows "new = [] \<or> new = push_p2p t m [] \<or>
         (\<exists>mf p u. mainFile = Some mf \<and> path mf = Some p \<and> truthy_field u \<and>
            new = [\<lparr>url = u, infoHash = None, sources = None,
                    title = ''[RD+] '' @ split_pop p\<rparr>])"
  using assms unfolding unrestrict_step_def
  by (auto split: option.splits list.splits prod.splits sum.splits if_splits)

lemma debrid_try_cases:
  assumes "debrid_try net k t m [] w = (Inr new, w')"
  shows "new = [] \<or> new = push_p2p t m [] \<or>
         (\<exists>fs mf p u. mainFile_of fs = Inr (Some mf) \<and> path mf = Some p \<and> truthy_field u \<and>
            new = [\<lparr>url = u, infoHash = None, sources = None,
                    title = ''[RD+] '' @ split_pop p\<rparr>])"
proof -
  from assms obtain fs mainFile ls w2 where
    m: "mainFile_of fs = Inr mainFile" and
    u: "unrestrict_step net k t m mainFile ls [] w2 = (Inr new, w')"
    unfolding debrid_try_def
    by (auto split: option.splits prod.splits sum.splits)
  from unrestrict_step_cases[OF u] m show ?thesis by blast
qed

lemma process_magnet_cases:
  assumes "process_magnet net k t m ([], w) = (new, w')"
  shows "new = [] \<or> new = push_p2p t m [] \<or>
         (truthy k \<and> (\<exists>fs mf p u. mainFile_of fs = Inr (Some mf) \<and> path mf = Some p \<and>
            truthy_field u \<and>
            new = [\<lparr>url = u, infoHash = None, sources = None,
                    title = ''[RD+] '' @ split_pop p\<rparr>]))"
proof (cases "truthy k")
  case False
  with assms show ?thesis by (simp add: process_magnet_def)
next
  case True
  show ?thesis
  proof (cases "debrid_try net k t m [] w")
    case (Pair r w1)
    show ?thesis
    proof (cases r)
      case (Inl e)
      with Pair True assms show ?thesis by (simp add: process_magnet_def)
    next
      case (Inr ss)
      with Pair True assms have "new = ss" by (simp add: process_magnet_def)
      with debrid_try_cases[of net k t m w ss w1] Pair Inr True show ?thesis by simp
    qed
  qed
qed

lemma for_magnets_append:
  "for_magnets net k t (xs @ ys) st = for_magnets net k t ys (for_magnets net k t xs st)"
  by (induction xs arbitrary: st) simp_all

lemma for_magnets_contributions:
  "for_magnets net k t ms (streams, w) =
     (streams @ concat (contributions net k t ms w), snd (for_magnets net k t ms ([], w)))"
proof (induction ms arbitrary: streams w)
  case Nil
  show ?case by simp
next
  case (Cons m ms)
  obtain new w1 where p: "process_magnet net k t m ([], w) = (new, w1)"
    by (cases "process_magnet net k t m ([], w)")
  then have q: "process_magnet net k t m (streams, w) = (streams @ new, w1)"
    using process_magnet_append[of net k t m streams w] by simp
  show ?case
    using Cons.IH[of "streams @ new" w1] Cons.IH[of new w1] p q by simp
qed

lemma for_magnets_no_key:
  "\<not> truthy k \<Longrightarrow>
   for_magnets net k t ms (streams, w) = (streams @ concat (map (\<lambda>m. push_p2p t m []) ms), w)"
proof (induction ms arbitrary: streams)
  case Nil
  show ?case by simp
next
  case (Cons m ms)
  then show ?case
    using push_p2p_append[of t m streams] by (simp add: process_magnet_no_key)
qed

lemma length_contributions: "length (contributions net k t ms w) = length ms"
  by (induction ms arbitrary: w) simp_all

lemma push_p2p_length: "length (push_p2p t m []) \<le> 1"
  by (simp add: push_p2p_Nil split: option.splits)

lemma process_magnet_length: "length (fst (process_magnet net k t m ([], w))) \<le> 1"
proof -
  obtain new w' where p: "process_magnet net k t m ([], w) = (new, w')"
    by (cases "process_magnet net k t m ([], w)")
  from process_magnet_cases[OF p] push_p2p_length[of t m] have "length new \<le> 1" by auto
  with p show ?thesis by simp
qed

lemma contributions_short: "list_all (\<lambda>c. length c \<le> 1) (contributions net k t ms w)"
  by (induction ms arbitrary: w) (simp_all add: process_magnet_length[simplified])

lemma contributions_nth:
  "i < length ms \<Longrightarrow>
   contributions net k t ms w ! i =
     fst (process_magnet net k t (ms ! i) ([], snd (for_magnets net k t (take i ms) ([], w))))"
proof (induction ms arbitrary: i w)
  case Nil
  then show ?case by simp
next
  case (Cons m ms)
  show ?case
  proof (cases i)
    case 0
    then show ?thesis by simp
  next
    case (Suc j)
    obtain new w1 where p: "process_magnet net k t m ([], w) = (new, w1)"
      by (cases "process_magnet net k t m ([], w)")
    have "snd (for_magnets net k t (take j ms) (new, w1)) =
          snd (for_magnets net k t (take j ms) ([], w1))"
      using for_magnets_contributions[of net k t "take j ms" new w1] by simp
    then show ?thesis using Suc Cons.prems Cons.IH[of j w1] p by simp
  qed
qed

section \<open>Evaluation of the examples\<close>

lemmas eval_defs =
  streamHandler_on_def lookup_details_def tmdb_kind_def contentId_def startsWith_def
  process_magnet_def debrid_try_def unrestrict_step_def push_p2p_def mainFile_of_def
  mainFile_step_def is_video_def videoExtensions_def endsWith_def toLowerCase_def
  toLowerCase_char_def match_here_def alnum_def js_or_def split_pop_def
  service_def service_down_def magnet_ok_def magnet_bad_def magnet_nonhex_def files_abc_def

lemma endsWith_iff: "endsWith s ext = (\<exists>pre. s = pre @ ext)"
proof
  assume "endsWith s ext"
  then have "s = take (length s - length ext) s @ ext"
    unfolding endsWith_def by (metis append_take_drop_id)
  then show "\<exists>pre. s = pre @ ext" ..
next
  assume "\<exists>pre. s = pre @ ext"
  then show "endsWith s ext" by (auto simp: endsWith_def)
qed

lemma lookup_down:
  "lookup_details service_down args123 0 = ((Some ''Content ID: tt123'', []), 1)"
  by (simp add: eval_defs args123_def)

lemma push_ok: "push_p2p (Some ttl) magnet_ok [] = [p2p_ok ttl]"
  by (simp add: eval_defs p2p_ok_def)

lemma push_bad: "push_p2p t magnet_bad [] = []"
  by (simp add: eval_defs)

lemma push_nonhex: "push_p2p (Some ttl) magnet_nonhex [] = [p2p_nonhex ttl]"
  by (simp add: eval_defs p2p_nonhex_def)

lemma process_down:
  "process_magnet service_down (Str ''KEY'') t m (streams, w) = (push_p2p t m streams, Suc w)"
  by (simp add: process_magnet_def debrid_try_def service_down_def)

lemma handler_unlocks_tie:
  "fst (streamHandler_on
          (service (Some files_tie) (Some [''https://rd.example/d/1''])
             (Some ''https://cdn.example/v/1''))
          (Str ''KEY'') [magnet_ok] args123 0) = Inr [direct_y]"
  by code_simp

section \<open>The handler as a whole\<close>

lemma for_magnets_fst:
  "fst (for_magnets net k t ms ([], w)) = concat (contributions net k t ms w)"
proof -
  have "fst (for_magnets net k t ms ([], w)) =
        fst ([] @ concat (contributions net k t ms w), snd (for_magnets net k t ms ([], w)))"
    by (rule arg_cong[OF for_magnets_contributions])
  then show ?thesis by simp
qed

lemma streamHandler_on_eq:
  "streamHandler_on net key ms args w =
     (Inr (concat (contributions net key (fst (fst (lookup_details net args w))) ms
                     (snd (lookup_details net args w)))),
      snd (for_magnets net key (fst (fst (lookup_details net args w))) ms
             ([], snd (lookup_details net args w))))"
proof -
  obtain ttl year w1 where l: "lookup_details net args w = ((ttl, year), w1)"
    by (metis surj_pair)
  obtain streams w2 where f: "for_magnets net key ttl ms ([], w1) = (streams, w2)"
    by (metis surj_pair)
  from for_magnets_fst[of net key ttl ms w1] f
  have "streams = concat (contributions net key ttl ms w1)" by simp
  with l f show ?thesis by (simp add: streamHandler_on_def)
qed

lemma streamHandler_on_no_key:
  "\<not> truthy key \<Longrightarrow>
   fst (streamHandler_on net key ms args w) =
     Inr (concat (map (\<lambda>m. push_p2p (fst (fst (lookup_details net args w))) m []) ms))"
  unfolding streamHandler_on_def
  by (cases "lookup_details net args w") (auto simp: for_magnets_no_key split: prod.splits)

lemma p2p_shape_push:
  assumes "s \<in> set (push_p2p t m [])"
  shows "p2p_shape s \<and> \<not> direct_shape s \<and>
   (\<exists>h. infoHashMatch m = Some h \<and> has_btih m h \<and> infoHash s = Some h \<and> sources s = Some [m])"
proof (cases "infoHashMatch m")
  case None
  with assms show ?thesis by (simp add: push_p2p_Nil)
next
  case (Some h)
  with assms have "s = \<lparr>url = None, infoHash = Some h, sources = Some [m],
                     title = ''[P2P] '' @ template t @ '' (Torrent)''\<rparr>"
    by (simp add: push_p2p_Nil)
  then show ?thesis using Some infoHashMatch_Some[OF Some]
    by (simp add: p2p_shape_def direct_shape_def)
qed

lemma split_pop_no_slash: "CHR ''/'' \<notin> set (split_pop p)"
  unfolding split_pop_def by (auto dest: set_takeWhileD)

lemma direct_shape_intro:
  "truthy_field u \<Longrightarrow>
   direct_shape \<lparr>url = u, infoHash = None, sources = None, title = ''[RD+] '' @ split_pop p\<rparr> \<and>
   \<not> p2p_shape \<lparr>url = u, infoHash = None, sources = None, title = ''[RD+] '' @ split_pop p\<rparr>"
  using split_pop_no_slash[of p] by (simp add: direct_shape_def p2p_shape_def)

lemma process_magnet_submit_fails:
  assumes "\<exists>e w'. addMagnet net m key w = (Inl e, w')"
  shows "fst (process_magnet net key ttl m (streams, w)) = push_p2p ttl m streams"
  using assms by (auto simp: process_magnet_def debrid_try_def)

lemma for_magnets_submit_fails:
  assumes "\<forall>m w. \<exists>e w'. addMagnet net m key w = (Inl e, w')"
  shows "fst (for_magnets net key ttl ms (streams, w)) =
           streams @ concat (map (\<lambda>m. push_p2p ttl m []) ms)"
proof (induction ms arbitrary: streams w)
  case Nil
  show ?case by simp
next
  case (Cons m ms)
  obtain s1 w1 where p: "process_magnet net key ttl m (streams, w) = (s1, w1)"
    by (metis surj_pair)
  from assms have "\<exists>e w'. addMagnet net m key w = (Inl e, w')" by blast
  from process_magnet_submit_fails[OF this, of ttl streams] p
  have "s1 = push_p2p ttl m streams" by simp
  then have "s1 = streams @ push_p2p ttl m []" using push_p2p_append[of ttl m streams] by simp
  with Cons.IH[of s1 w1] p show ?case by simp
qed

lemma emitted_shape:
  assumes "s \<in> set (fst (process_magnet net k t m ([], w)))"
  shows "(direct_shape s \<and> \<not> p2p_shape s \<and> truthy k \<and>
          (\<exists>fs mf p. mainFile_of fs = Inr (Some mf) \<and> path mf = Some p \<and>
             title s = ''[RD+] '' @ split_pop p)) \<or>
         (p2p_shape s \<and> \<not> direct_shape s \<and>
          (\<exists>h. infoHashMatch m = Some h \<and> infoHash s = Some h \<and> sources s = Some [m]) \<and>
          title s = ''[P2P] '' @ template t @ '' (Torrent)'')"
proof -
  obtain new w' where p: "process_magnet net k t m ([], w) = (new, w')"
    by (metis surj_pair)
  with assms have s: "s \<in> set new" by simp
  from process_magnet_cases[OF p] consider "new = []" | "new = push_p2p t m []"
    | fs mf q u where "truthy k" "mainFile_of fs = Inr (Some mf)" "path mf = Some q"
        "truthy_field u"
        "new = [\<lparr>url = u, infoHash = None, sources = None, title = ''[RD+] '' @ split_pop q\<rparr>]"
    by blast
  then show ?thesis
  proof cases
    case 1
    with s show ?thesis by simp
  next
    case 2
    with s have i: "s \<in> set (push_p2p t m [])" by simp
    from p2p_shape_push[OF i] obtain h where
      "p2p_shape s" "\<not> direct_shape s" "infoHashMatch m = Some h" "infoHash s = Some h"
      "sources s = Some [m]" by blast
    moreover from i this(3) have "title s = ''[P2P] '' @ template t @ '' (Torrent)''"
      by (simp add: push_p2p_Nil)
    ultimately show ?thesis by blast
  next
    case 3
    with s have e: "s = \<lparr>url = u, infoHash = None, sources = None,
                         title = ''[RD+] '' @ split_pop q\<rparr>" by simp
    from direct_shape_intro[OF 3(4), of q] e have "direct_shape s" "\<not> p2p_shape s" by simp_all
    moreover from e have "title s = ''[RD+] '' @ split_pop q" by simp
    ultimately show ?thesis using 3(1,2,3) by blast
  qed
qed

lemma contributions_origin:
  "s \<in> set (concat (contributions net k t ms w)) \<Longrightarrow>
   \<exists>m\<in>set ms. \<exists>w'. s \<in> set (fst (process_magnet net k t m ([], w')))"
proof (induction ms arbitrary: w)
  case Nil
  then show ?case by simp
next
  case (Cons m ms)
  then show ?case by auto
qed

text \<open>Where an unlock that fails falls back to the peer-to-peer branch (an error
  thrown in the \<^verbatim>\<open>try\<close>, no file or no link ready), and where it does not (an
  unrestrict response without a stream link leaves the list as it was).\<close>

lemma fallback_on_throw:
  assumes "truthy key" and "fst (debrid_try net key ttl m streams w) = Inl e"
  shows "fst (process_magnet net key ttl m (streams, w)) = push_p2p ttl m streams"
  using assms by (cases "debrid_try net key ttl m streams w") (simp add: process_magnet_def)

lemma fallback_on_nothing_ready:
  assumes "mainFile = None \<or> ls = None \<or> ls = Some []"
  shows "unrestrict_step net key ttl m mainFile ls streams w = (Inr (push_p2p ttl m streams), w)"
  using assms by (auto simp: unrestrict_step_def split: option.splits list.splits)

lemma dropped_without_stream_link:
  assumes "unrestrict_link net l key w = (Inr (Some d), w')" and "\<not> truthy_field (stream_link d)"
  shows "unrestrict_step net key ttl m (Some mf) (Some (l # ls)) streams w = (Inr streams, w')"
  using assms by (simp add: unrestrict_step_def)

section \<open>The properties\<close>

text \<open>
  C1. With a key set, a failure of any step of the unlock protocol should fall back to
  the peer-to-peer descriptor of the same candidate. The handler does so when a request
  rejects, when a response is unusable and when no file or link is ready, but not when
  the unrestrict response carries no stream link: for a candidate whose hash matches,
  the unlock reaches the unrestrict call, the response has no \<^verbatim>\<open>stream_link\<close>, and
  the handler resolves with no descriptor at all. The same candidate with an empty list
  of links, a sibling failure, does get its peer-to-peer descriptor.
\<close>

theorem C1_no_locator_drops_candidate:
  "infoHashMatch magnet_ok = Some ''0123456789abcdef0123456789abcdef01234567'' \<and>
   fst (streamHandler_on (service (Some files_abc) (Some [''https://rd.example/d/1'']) None)
          (Str ''KEY'') [magnet_ok] \<lparr>arg_type = ''movie'', arg_id = ''tt123''\<rparr> 0) = Inr [] \<and>
   fst (streamHandler_on (service (Some files_abc) (Some []) None)
          (Str ''KEY'') [magnet_ok] \<lparr>arg_type = ''movie'', arg_id = ''tt123''\<rparr> 0) =
     Inr [\<lparr>url = None, infoHash = Some ''0123456789abcdef0123456789abcdef01234567'',
           sources = Some [magnet_ok], title = ''[P2P] Film (Torrent)''\<rparr>]"
  by (simp add: eval_defs)

text \<open>
  C2, as stated, at a tie: of two qualifying entries of equal size the claim keeps the
  earliest-seen one, the reduction returns the latest-seen one.
\<close>

theorem C2_tie_keeps_latest:
  "mainFile_of [\<lparr>path = Some ''x.mkv'', bytes = 100\<rparr>, \<lparr>path = Some ''y.mp4'', bytes = 100\<rparr>]
     = Inr (Some \<lparr>path = Some ''y.mp4'', bytes = 100\<rparr>) \<and>
   mainFile_of [\<lparr>path = Some ''x.mkv'', bytes = 100\<rparr>, \<lparr>path = Some ''y.mp4'', bytes = 100\<rparr>]
     \<noteq> Inr (Some \<lparr>path = Some ''x.mkv'', bytes = 100\<rparr>)"
  by (simp add: eval_defs)

text \<open>
  C2, amended. The reduction throws exactly when some entry has no string path.
  Otherwise it returns \<^verbatim>\<open>null\<close> exactly when no entry qualifies, and else an entry
  of the list that qualifies, such that no qualifying entry before it is larger and
  every qualifying entry after it is strictly smaller: the largest qualifying entry,
  and among several of the largest size the latest-seen one. An entry qualifies exactly
  when its lower-cased path ends in one of the five suffixes. On the list
  \<^verbatim>\<open>[{a.txt,100},{b.mkv,50},{c.mp4,200}]\<close> the entry \<^verbatim>\<open>c.mp4\<close> is selected.
\<close>

theorem C2_mainFile_largest_latest:
  "((\<exists>e. mainFile_of fs = Inl e) = (\<exists>f\<in>set fs. path f = None)) \<and>
   ((mainFile_of fs = Inr None) = (\<forall>f\<in>set fs. path f \<noteq> None \<and> \<not> video_entry f)) \<and>
   (mainFile_of fs = Inr (Some m) \<longrightarrow>
      (\<exists>pre post. fs = pre @ m # post \<and> video_entry m \<and>
         (\<forall>f\<in>set pre. video_entry f \<longrightarrow> bytes f \<le> bytes m) \<and>
         (\<forall>f\<in>set post. video_entry f \<longrightarrow> bytes f < bytes m))) \<and>
   (video_entry f =
      (\<exists>p pre ext. path f = Some p \<and> toLowerCase p = pre @ ext \<and>
         ext \<in> {''.mkv'', ''.mp4'', ''.avi'', ''.mov'', ''.webm''})) \<and>
   mainFile_of files_abc = Inr (Some \<lparr>path = Some ''c.mp4'', bytes = 200\<rparr>)"
proof (intro conjI)
  note spec = reduce_files_None_spec[of fs]
  show "(\<exists>e. mainFile_of fs = Inl e) = (\<exists>f\<in>set fs. path f = None)"
    using spec unfolding mainFile_of_def
    by (cases "reduce_files fs None") (auto split: option.splits)
  show "(mainFile_of fs = Inr None) = (\<forall>f\<in>set fs. path f \<noteq> None \<and> \<not> video_entry f)"
    using spec unfolding mainFile_of_def selected_def
    by (cases "reduce_files fs None") (auto split: option.splits)
  show "mainFile_of fs = Inr (Some m) \<longrightarrow>
      (\<exists>pre post. fs = pre @ m # post \<and> video_entry m \<and>
         (\<forall>f\<in>set pre. video_entry f \<longrightarrow> bytes f \<le> bytes m) \<and>
         (\<forall>f\<in>set post. video_entry f \<longrightarrow> bytes f < bytes m))"
    using spec unfolding mainFile_of_def selected_def by auto
  show "video_entry f =
      (\<exists>p pre ext. path f = Some p \<and> toLowerCase p = pre @ ext \<and>
         ext \<in> {''.mkv'', ''.mp4'', ''.avi'', ''.mov'', ''.webm''})"
    unfolding video_entry_def is_video_def videoExtensions_def
    by (cases "path f") (simp_all add: endsWith_iff, blast)
  show "mainFile_of files_abc = Inr (Some \<lparr>path = Some ''c.mp4'', bytes = 200\<rparr>)"
    by (simp add: eval_defs)
qed

theorem C2_mainFile_largest_latest_witness:
  "mainFile_of files_tie = Inr (Some \<lparr>path = Some ''dir/Y.MP4'', bytes = 100\<rparr>) \<and>
   (\<exists>pre post. files_tie = pre @ \<lparr>path = Some ''dir/Y.MP4'', bytes = 100\<rparr> # post \<and>
      video_entry \<lparr>path = Some ''dir/Y.MP4'', bytes = 100\<rparr> \<and>
      (\<forall>f\<in>set pre. video_entry f \<longrightarrow> bytes f \<le> 100) \<and>
      (\<forall>f\<in>set post. video_entry f \<longrightarrow> bytes f < 100))"
proof -
  have e: "mainFile_of files_tie = Inr (Some \<lparr>path = Some ''dir/Y.MP4'', bytes = 100\<rparr>)"
    by code_simp
  from C2_mainFile_largest_latest[where fs = files_tie
      and m = "\<lparr>path = Some ''dir/Y.MP4'', bytes = 100\<rparr>",
      THEN conjunct2, THEN conjunct2, THEN conjunct1] e
  show ?thesis by simp
qed

text \<open>
  C3, as stated, at a hash that is not hexadecimal: forty letters \<^verbatim>\<open>z\<close> after
  \<^verbatim>\<open>btih:\<close> match the pattern of the source, and with no key set the handler
  emits a peer-to-peer descriptor for the candidate.
\<close>

theorem C3_nonhex_hash_emitted:
  "infoHashMatch magnet_nonhex = Some ''zzzzzzzzzzzzzzzzzzzzzzzzzzzzzzzzzzzzzzzz'' \<and>
   \<not> list_all hex_digit ''zzzzzzzzzzzzzzzzzzzzzzzzzzzzzzzzzzzzzzzz'' \<and>
   fst (streamHandler_on service_down (Str []) [magnet_nonhex]
          \<lparr>arg_type = ''movie'', arg_id = ''tt123''\<rparr> 0) =
     Inr [\<lparr>url = None, infoHash = Some ''zzzzzzzzzzzzzzzzzzzzzzzzzzzzzzzzzzzzzzzz'',
           sources = Some [magnet_nonhex], title = ''[P2P] Content ID: tt123 (Torrent)''\<rparr>]"
  by (simp add: eval_defs hex_digit_def)

text \<open>
  C3, amended. The descriptors an iteration pushes are appended to the list. A
  peer-to-peer descriptor among them comes only from a magnet in which \<^verbatim>\<open>btih:\<close>
  is followed by forty characters that are ASCII letters or digits (hexadecimal or
  not); it carries these forty characters as its hash and the magnet as its only
  source. A magnet with no such occurrence gives no peer-to-peer descriptor, and with no
  key set it gives no descriptor at all: the handler resolves with the same streams as
  for the list without it.
\<close>

theorem C3_p2p_only_with_pattern:
  "\<exists>new. fst (process_magnet net key ttl m (streams, w)) = streams @ new \<and>
     (\<forall>s\<in>set new. p2p_shape s \<longrightarrow>
        (\<exists>h. has_btih m h \<and> infoHashMatch m = Some h \<and> infoHash s = Some h \<and>
             sources s = Some [m])) \<and>
     ((\<forall>h. \<not> has_btih m h) \<longrightarrow> (\<forall>s\<in>set new. \<not> p2p_shape s)) \<and>
     ((\<forall>h. \<not> has_btih m h) \<and> \<not> truthy key \<longrightarrow>
        new = [] \<and>
        fst (streamHandler_on net key (pre @ m # post) args w0) =
        fst (streamHandler_on net key (pre @ post) args w0))"
proof -
  define new where "new = fst (process_magnet net key ttl m ([], w))"
  obtain w' where p: "process_magnet net key ttl m ([], w) = (new, w')"
    unfolding new_def by (cases "process_magnet net key ttl m ([], w)") simp
  have a: "fst (process_magnet net key ttl m (streams, w)) = streams @ new"
    using process_magnet_append[of net key ttl m streams w] by (simp add: new_def)
  have b: "\<exists>h. has_btih m h \<and> infoHashMatch m = Some h \<and> infoHash s = Some h \<and>
             sources s = Some [m]" if "s \<in> set new" "p2p_shape s" for s
  proof -
    from process_magnet_cases[OF p] consider "new = []" | "new = push_p2p ttl m []"
      | q u where "truthy_field u"
          "new = [\<lparr>url = u, infoHash = None, sources = None, title = ''[RD+] '' @ split_pop q\<rparr>]"
      by blast
    then show ?thesis
    proof cases
      case 1
      with that show ?thesis by simp
    next
      case 2
      with that p2p_shape_push[of s ttl m] show ?thesis by blast
    next
      case 3
      with that direct_shape_intro[of u q] show ?thesis by simp
    qed
  qed
  have c: "new = [] \<and>
        fst (streamHandler_on net key (pre @ m # post) args w0) =
        fst (streamHandler_on net key (pre @ post) args w0)"
    if "\<forall>h. \<not> has_btih m h" "\<not> truthy key"
  proof -
    from that(1) have n: "infoHashMatch m = None" by (simp add: infoHashMatch_None)
    then have e: "push_p2p t m [] = []" for t by (simp add: push_p2p_Nil)
    have "new = []" using p that(2) e by (simp add: process_magnet_no_key)
    moreover have "fst (streamHandler_on net key (pre @ m # post) args w0) =
        fst (streamHandler_on net key (pre @ post) args w0)"
      using that(2) e by (simp add: streamHandler_on_no_key)
    ultimately show ?thesis by simp
  qed
  from a b c show ?thesis by blast
qed

theorem C3_p2p_only_with_pattern_witness:
  "(\<forall>h. \<not> has_btih magnet_bad h) \<and> \<not> truthy (Str []) \<and>
   fst (streamHandler_on service_down (Str []) ([magnet_ok] @ magnet_bad # [magnet_nonhex])
          \<lparr>arg_type = ''movie'', arg_id = ''tt123''\<rparr> 0) =
   fst (streamHandler_on service_down (Str []) ([magnet_ok] @ [magnet_nonhex])
          \<lparr>arg_type = ''movie'', arg_id = ''tt123''\<rparr> 0)"
proof -
  have n: "\<forall>h. \<not> has_btih magnet_bad h"
    unfolding infoHashMatch_None[symmetric] by (simp add: eval_defs)
  have k: "\<not> truthy (Str [])" by simp
  from C3_p2p_only_with_pattern[of service_down "Str []" None magnet_bad "[]" 0
      "[magnet_ok]" "[magnet_nonhex]" "\<lparr>arg_type = ''movie'', arg_id = ''tt123''\<rparr>" 0] n k
  show ?thesis by blast
qed

text \<open>
  C4. With no key set, a candidate whose magnet matches the pattern contributes exactly
  one descriptor, between the descriptors of the candidates before it and those of the
  candidates after it: the peer-to-peer descriptor whose hash is the forty characters
  matched and whose sources are the one-element list of the raw magnet.
\<close>

theorem C4_valid_hash_no_key:
  assumes "\<not> truthy key" and "infoHashMatch m = Some h"
  shows "\<exists>A B. fst (streamHandler_on net key pre args w) = Inr A \<and>
           fst (streamHandler_on net key post args w) = Inr B \<and>
           fst (streamHandler_on net key (pre @ m # post) args w) =
             Inr (A @ [\<lparr>url = None, infoHash = Some h, sources = Some [m],
                        title = ''[P2P] '' @ template (fst (fst (lookup_details net args w))) @
                                '' (Torrent)''\<rparr>] @ B) \<and>
           has_btih m h"
  using assms by (simp add: streamHandler_on_no_key push_p2p_Nil infoHashMatch_Some)

theorem C4_valid_hash_no_key_witness:
  "\<not> truthy (Str []) \<and>
   infoHashMatch magnet_ok = Some ''0123456789abcdef0123456789abcdef01234567'' \<and>
   (\<exists>A B. fst (streamHandler_on (service None None None) (Str []) [magnet_bad]
              \<lparr>arg_type = ''movie'', arg_id = ''tt123''\<rparr> 0) = Inr A \<and>
           fst (streamHandler_on (service None None None) (Str []) [magnet_nonhex]
              \<lparr>arg_type = ''movie'', arg_id = ''tt123''\<rparr> 0) = Inr B \<and>
           fst (streamHandler_on (service None None None) (Str [])
              ([magnet_bad] @ magnet_ok # [magnet_nonhex])
              \<lparr>arg_type = ''movie'', arg_id = ''tt123''\<rparr> 0) =
             Inr (A @ [\<lparr>url = None, infoHash = Some ''0123456789abcdef0123456789abcdef01234567'',
                        sources = Some [magnet_ok], title = ''[P2P] Film (Torrent)''\<rparr>] @ B))"
proof -
  have k: "\<not> truthy (Str [])" by simp
  have h: "infoHashMatch magnet_ok = Some ''0123456789abcdef0123456789abcdef01234567''"
    by (simp add: eval_defs)
  have t: "template (fst (fst (lookup_details (service None None None)
              \<lparr>arg_type = ''movie'', arg_id = ''tt123''\<rparr> 0))) = ''Film''"
    by (simp add: eval_defs)
  from C4_valid_hash_no_key[OF k h, of "service None None None" "[magnet_bad]"
      "\<lparr>arg_type = ''movie'', arg_id = ''tt123''\<rparr>" 0 "[magnet_nonhex]"]
  obtain A B where
    a: "fst (streamHandler_on (service None None None) (Str []) [magnet_bad]
              \<lparr>arg_type = ''movie'', arg_id = ''tt123''\<rparr> 0) = Inr A" and
    b: "fst (streamHandler_on (service None None None) (Str []) [magnet_nonhex]
              \<lparr>arg_type = ''movie'', arg_id = ''tt123''\<rparr> 0) = Inr B" and
    c: "fst (streamHandler_on (service None None None) (Str [])
              ([magnet_bad] @ magnet_ok # [magnet_nonhex])
              \<lparr>arg_type = ''movie'', arg_id = ''tt123''\<rparr> 0) =
             Inr (A @ [\<lparr>url = None, infoHash = Some ''0123456789abcdef0123456789abcdef01234567'',
                        sources = Some [magnet_ok],
                        title = ''[P2P] '' @ template (fst (fst (lookup_details
                           (service None None None)
                           \<lparr>arg_type = ''movie'', arg_id = ''tt123''\<rparr> 0))) @
                                '' (Torrent)''\<rparr>] @ B)"
    by blast
  from c have "fst (streamHandler_on (service None None None) (Str [])
              ([magnet_bad] @ magnet_ok # [magnet_nonhex])
              \<lparr>arg_type = ''movie'', arg_id = ''tt123''\<rparr> 0) =
             Inr (A @ [\<lparr>url = None, infoHash = Some ''0123456789abcdef0123456789abcdef01234567'',
                        sources = Some [magnet_ok], title = ''[P2P] Film (Torrent)''\<rparr>] @ B)"
    unfolding t by simp
  with k h a b show ?thesis by blast
qed

text \<open>
  C5. The streams the handler resolves with are the contributions of the candidates,
  concatenated in the order of the candidate list. There is one contribution for each
  candidate, of at most one descriptor; the contribution of the candidate at position
  \<open>i\<close> is what its iteration pushes in the state of the world left by the
  candidates before it. An iteration only appends to the list, and what it appends and
  the world it leaves do not depend on the descriptors pushed before.
\<close>

theorem C5_output_in_candidate_order:
  "fst (streamHandler_on net key ms args w) =
     Inr (concat (contributions net key (fst (fst (lookup_details net args w))) ms
                    (snd (lookup_details net args w)))) \<and>
   length (contributions net key ttl ms w1) = length ms \<and>
   list_all (\<lambda>c. length c \<le> 1) (contributions net key ttl ms w1) \<and>
   (\<forall>i<length ms.
      contributions net key ttl ms w1 ! i =
        fst (process_magnet net key ttl (ms ! i)
               ([], snd (for_magnets net key ttl (take i ms) ([], w1))))) \<and>
   fst (process_magnet net key ttl m (streams, w)) =
     streams @ fst (process_magnet net key ttl m ([], w)) \<and>
   snd (process_magnet net key ttl m (streams, w)) = snd (process_magnet net key ttl m ([], w))"
proof (intro conjI)
  show "fst (streamHandler_on net key ms args w) =
     Inr (concat (contributions net key (fst (fst (lookup_details net args w))) ms
                    (snd (lookup_details net args w))))"
    by (simp add: streamHandler_on_eq)
  show "length (contributions net key ttl ms w1) = length ms"
    by (rule length_contributions)
  show "list_all (\<lambda>c. length c \<le> 1) (contributions net key ttl ms w1)"
    by (rule contributions_short)
  show "\<forall>i<length ms.
      contributions net key ttl ms w1 ! i =
        fst (process_magnet net key ttl (ms ! i)
               ([], snd (for_magnets net key ttl (take i ms) ([], w1))))"
    using contributions_nth[of _ ms net key ttl w1] by blast
  show "fst (process_magnet net key ttl m (streams, w)) =
     streams @ fst (process_magnet net key ttl m ([], w))"
    using process_magnet_append[of net key ttl m streams w] by simp
  show "snd (process_magnet net key ttl m (streams, w)) = snd (process_magnet net key ttl m ([], w))"
    using process_magnet_append[of net key ttl m streams w] by simp
qed

theorem C5_output_in_candidate_order_witness:
  "contributions service_down (Str ''KEY'') (Some ''Content ID: tt123'')
     [magnet_ok, magnet_bad, magnet_nonhex] 1 =
     [[p2p_ok ''Content ID: tt123''], [], [p2p_nonhex ''Content ID: tt123'']] \<and>
   fst (streamHandler_on service_down (Str ''KEY'') [magnet_ok, magnet_bad, magnet_nonhex]
          args123 0) =
     Inr [p2p_ok ''Content ID: tt123'', p2p_nonhex ''Content ID: tt123'']"
proof -
  have c: "contributions service_down (Str ''KEY'') (Some ''Content ID: tt123'')
     [magnet_ok, magnet_bad, magnet_nonhex] 1 =
     [[p2p_ok ''Content ID: tt123''], [], [p2p_nonhex ''Content ID: tt123'']]"
    by (simp add: process_down push_ok push_bad push_nonhex)
  from C5_output_in_candidate_order[of service_down "Str ''KEY''"
      "[magnet_ok, magnet_bad, magnet_nonhex]" args123 0, THEN conjunct1]
  have "fst (streamHandler_on service_down (Str ''KEY'') [magnet_ok, magnet_bad, magnet_nonhex]
          args123 0) =
     Inr (concat (contributions service_down (Str ''KEY'') (Some ''Content ID: tt123'')
     [magnet_ok, magnet_bad, magnet_nonhex] 1))"
    unfolding lookup_down by simp
  with c show ?thesis by simp
qed

text \<open>
  C6. Whatever the remote calls do, the handler resolves with a list of streams and
  never rejects, for any list of candidates and for the list of the source. The loop over
  a list runs the iteration of each candidate and then goes on with the candidates after
  it, in whatever state the iteration ended. When every submit request rejects, the
  handler still resolves, with the peer-to-peer descriptor of every candidate whose
  magnet matches the pattern.
\<close>

theorem C6_never_rejects:
  "(\<exists>streams w'. streamHandler_on net key ms args w = (Inr streams, w')) \<and>
   (\<exists>streams w'. streamHandler net key args w = (Inr streams, w')) \<and>
   for_magnets net key ttl (pre @ m # post) st =
     for_magnets net key ttl post (process_magnet net key ttl m (for_magnets net key ttl pre st)) \<and>
   ((\<forall>m w. \<exists>e w'. addMagnet net m key w = (Inl e, w')) \<longrightarrow>
      fst (streamHandler_on net key ms args w) =
        Inr (concat (map (\<lambda>m. push_p2p (fst (fst (lookup_details net args w))) m []) ms)))"
proof (intro conjI impI)
  show "\<exists>streams w'. streamHandler_on net key ms args w = (Inr streams, w')"
    using streamHandler_on_eq[of net key ms args w] by blast
  show "\<exists>streams w'. streamHandler net key args w = (Inr streams, w')"
    unfolding streamHandler_def
    using streamHandler_on_eq[of net key potentialMagnetLinks args w] by blast
  show "for_magnets net key ttl (pre @ m # post) st =
     for_magnets net key ttl post (process_magnet net key ttl m (for_magnets net key ttl pre st))"
    by (simp add: for_magnets_append)
  assume a: "\<forall>m w. \<exists>e w'. addMagnet net m key w = (Inl e, w')"
  obtain ttl' year w1 where l: "lookup_details net args w = ((ttl', year), w1)"
    by (metis surj_pair)
  obtain streams w2 where f: "for_magnets net key ttl' ms ([], w1) = (streams, w2)"
    by (metis surj_pair)
  from for_magnets_submit_fails[OF a, of ttl' ms "[]" w1] f
  have "streams = concat (map (\<lambda>m. push_p2p ttl' m []) ms)" by simp
  with l f show "fst (streamHandler_on net key ms args w) =
        Inr (concat (map (\<lambda>m. push_p2p (fst (fst (lookup_details net args w))) m []) ms))"
    by (simp add: streamHandler_on_def)
qed

theorem C6_never_rejects_witness:
  "(\<forall>m w. \<exists>e w'. addMagnet service_down m (Str ''KEY'') w = (Inl e, w')) \<and>
   fst (streamHandler_on service_down (Str ''KEY'') [magnet_ok, magnet_bad, magnet_nonhex]
          args123 0) =
     Inr [p2p_ok ''Content ID: tt123'', p2p_nonhex ''Content ID: tt123'']"
proof -
  have a: "\<forall>m w. \<exists>e w'. addMagnet service_down m (Str ''KEY'') w = (Inl e, w')"
    by (simp add: service_down_def)
  from C6_never_rejects[of service_down "Str ''KEY''" "[magnet_ok, magnet_bad, magnet_nonhex]"
      args123 0, THEN conjunct2, THEN conjunct2, THEN conjunct2, THEN mp, OF a]
  have "fst (streamHandler_on service_down (Str ''KEY'') [magnet_ok, magnet_bad, magnet_nonhex]
          args123 0) =
     Inr [p2p_ok ''Content ID: tt123'', p2p_nonhex ''Content ID: tt123'']"
    unfolding lookup_down by (simp add: push_ok push_bad push_nonhex)
  with a show ?thesis by simp
qed

text \<open>
  C7. With an empty list of candidates the handler resolves with the empty list of
  streams, whatever the metadata lookup did; the list of the source is empty.
\<close>

theorem C7_empty_candidates:
  "(\<exists>w'. streamHandler_on net key [] args w = (Inr [], w')) \<and>
   (\<exists>w'. streamHandler net key args w = (Inr [], w'))"
  by (simp add: streamHandler_def potentialMagnetLinks_def streamHandler_on_def
      split: prod.splits)

theorem C7_empty_candidates_witness:
  "\<exists>w'. streamHandler service_down (Str ''KEY'') args123 0 = (Inr [], w')"
  by (rule C7_empty_candidates[of service_down "Str ''KEY''" args123 0, THEN conjunct2])

text \<open>
  C8. When the metadata lookup fails (the request rejects or the response carries no
  data), the title is \<^verbatim>\<open>Content ID: \<close> followed by the raw identifier of the
  request, and the handler goes on: it resolves with the streams the loop builds under
  that title. With no key set these are the peer-to-peer descriptors labelled with it.
\<close>

theorem C8_details_failure_fallback_title:
  assumes "\<forall>d. fst (tmdb_details net (tmdb_kind args) (contentId args) w) \<noteq> Inr (Some d)"
  shows "fst (lookup_details net args w) = (Some (''Content ID: '' @ arg_id args), []) \<and>
         streamHandler_on net key ms args w =
           (Inr (fst (for_magnets net key (Some (''Content ID: '' @ arg_id args)) ms
                   ([], snd (tmdb_details net (tmdb_kind args) (contentId args) w)))),
            snd (for_magnets net key (Some (''Content ID: '' @ arg_id args)) ms
                   ([], snd (tmdb_details net (tmdb_kind args) (contentId args) w)))) \<and>
         (\<not> truthy key \<longrightarrow>
            fst (streamHandler_on net key ms args w) =
              Inr (concat (map (\<lambda>m. push_p2p (Some (''Content ID: '' @ arg_id args)) m []) ms)))"
proof -
  obtain r w1 where t: "tmdb_details net (tmdb_kind args) (contentId args) w = (r, w1)"
    by (metis surj_pair)
  with assms have "\<forall>d. r \<noteq> Inr (Some d)" by simp
  with t have l: "lookup_details net args w = ((Some (''Content ID: '' @ arg_id args), []), w1)"
    unfolding lookup_details_def by (auto split: sum.splits option.splits)
  have 1: "fst (lookup_details net args w) = (Some (''Content ID: '' @ arg_id args), [])"
    using l by simp
  have 2: "streamHandler_on net key ms args w =
           (Inr (fst (for_magnets net key (Some (''Content ID: '' @ arg_id args)) ms
                   ([], snd (tmdb_details net (tmdb_kind args) (contentId args) w)))),
            snd (for_magnets net key (Some (''Content ID: '' @ arg_id args)) ms
                   ([], snd (tmdb_details net (tmdb_kind args) (contentId args) w))))"
    using l t by (simp add: streamHandler_on_def split: prod.splits)
  have 3: "fst (streamHandler_on net key ms args w) =
              Inr (concat (map (\<lambda>m. push_p2p (Some (''Content ID: '' @ arg_id args)) m []) ms))"
    if "\<not> truthy key"
    using streamHandler_on_no_key[OF that, of net ms args w] l by simp
  from 1 2 3 show ?thesis by blast
qed

theorem C8_details_failure_fallback_title_witness:
  "(\<forall>d. fst (tmdb_details service_down (tmdb_kind args123) (contentId args123) 0) \<noteq> Inr (Some d)) \<and>
   \<not> truthy (Str []) \<and>
   fst (lookup_details service_down args123 0) = (Some ''Content ID: tt123'', []) \<and>
   fst (streamHandler_on service_down (Str []) [magnet_ok] args123 0) =
     Inr [\<lparr>url = None, infoHash = Some ''0123456789abcdef0123456789abcdef01234567'',
           sources = Some [magnet_ok], title = ''[P2P] Content ID: tt123 (Torrent)''\<rparr>]"
proof -
  have a: "\<forall>d. fst (tmdb_details service_down (tmdb_kind args123) (contentId args123) 0) \<noteq>
             Inr (Some d)"
    by (simp add: service_down_def)
  have k: "\<not> truthy (Str [])" by simp
  note t = C8_details_failure_fallback_title[OF a, of "Str []" "[magnet_ok]"]
  from t have 1: "fst (lookup_details service_down args123 0) = (Some ''Content ID: tt123'', [])"
    by (simp add: args123_def)
  from t k have "fst (streamHandler_on service_down (Str []) [magnet_ok] args123 0) =
      Inr (concat (map (\<lambda>m. push_p2p (Some (''Content ID: '' @ arg_id args123)) m []) [magnet_ok]))"
    by blast
  then have 2: "fst (streamHandler_on service_down (Str []) [magnet_ok] args123 0) =
     Inr [\<lparr>url = None, infoHash = Some ''0123456789abcdef0123456789abcdef01234567'',
           sources = Some [magnet_ok], title = ''[P2P] Content ID: tt123 (Torrent)''\<rparr>]"
    by (simp add: args123_def push_ok p2p_ok_def)
  from a k 1 2 show ?thesis by blast
qed

text \<open>
  C9. Every descriptor the handler resolves with has exactly one of the two shapes.
  Either it is a direct stream: a non-empty URL, no hash and no sources, and the title
  \<^verbatim>\<open>[RD+] \<close> followed by the part after the last slash of the path of the file the
  reduction selected (this needs a key). Or it is a peer-to-peer stream: no URL, the
  hash matched in the magnet of one of the candidates, that magnet as its only source,
  and the title \<^verbatim>\<open>[P2P] \<close>, the looked-up title, \<^verbatim>\<open> (Torrent)\<close>.
\<close>

theorem C9_descriptor_shapes:
  assumes "fst (streamHandler_on net key ms args w) = Inr streams" and "s \<in> set streams"
  shows "(direct_shape s \<and> \<not> p2p_shape s \<and> truthy key \<and>
          (\<exists>fs mf p. mainFile_of fs = Inr (Some mf) \<and> path mf = Some p \<and>
             title s = ''[RD+] '' @ split_pop p)) \<or>
         (p2p_shape s \<and> \<not> direct_shape s \<and>
          (\<exists>m h. m \<in> set ms \<and> infoHashMatch m = Some h \<and> infoHash s = Some h \<and>
             sources s = Some [m]) \<and>
          title s = ''[P2P] '' @ template (fst (fst (lookup_details net args w))) @
                    '' (Torrent)'')"
proof -
  from assms have "s \<in> set (concat (contributions net key (fst (fst (lookup_details net args w)))
      ms (snd (lookup_details net args w))))"
    by (simp add: streamHandler_on_eq)
  from contributions_origin[OF this] obtain m w' where m: "m \<in> set ms"
    and e: "s \<in> set (fst (process_magnet net key (fst (fst (lookup_details net args w))) m
               ([], w')))"
    by blast
  from emitted_shape[OF e] m show ?thesis by blast
qed

theorem C9_descriptor_shapes_witness:
  "fst (streamHandler_on
          (service (Some files_tie) (Some [''https://rd.example/d/1''])
             (Some ''https://cdn.example/v/1''))
          (Str ''KEY'') [magnet_ok] args123 0) = Inr [direct_y] \<and>
   direct_y \<in> set [direct_y] \<and> direct_shape direct_y \<and> \<not> p2p_shape direct_y"
proof -
  have m: "direct_y \<in> set [direct_y]" by simp
  from C9_descriptor_shapes[OF handler_unlocks_tie m]
  have "direct_shape direct_y \<and> \<not> p2p_shape direct_y \<or>
        p2p_shape direct_y \<and> \<not> direct_shape direct_y"
    by blast
  moreover have "url direct_y \<noteq> None" by (simp add: direct_y_def)
  then have "\<not> p2p_shape direct_y" by (simp add: p2p_shape_def)
  ultimately show ?thesis using handler_unlocks_tie m by blast
qed

text \<open>
  C10, as stated, at a repeated empty field: the body
  \<^verbatim>\<open>DEBRID_API_KEY=&DEBRID_API_KEY=\<close> of a POST request holds no non-empty value
  of the field, yet its parsed field is the array of two empty strings, which is truthy:
  the handler replaces the global and answers with the page that confirms the save.
\<close>

theorem C10_repeated_empty_field_saved:
  "qs_field ''DEBRID_API_KEY=&DEBRID_API_KEY='' = Arr [[], []] \<and>
   \<not> nonempty_field (qs_field ''DEBRID_API_KEY=&DEBRID_API_KEY='') \<and>
   configureHandler qs_field
     \<lparr>arg_method = ''POST'', arg_body = TextBody ''DEBRID_API_KEY=&DEBRID_API_KEY=''\<rparr>
     (Str ''old'') = (Inr ConfigurationSaved, Arr [[], []]) \<and>
   snd (configureHandler qs_field
     \<lparr>arg_method = ''POST'', arg_body = TextBody ''DEBRID_API_KEY=&DEBRID_API_KEY=''\<rparr>
     (Str ''old'')) \<noteq> Str ''old''"
  by (simp add: qs_field_def qs_values_def configureHandler_def)

text \<open>
  C10, amended. The configure handler always resolves with one of its pages. It
  changes the global key only for a POST request with a truthy body whose parsed
  \<^verbatim>\<open>DEBRID_API_KEY\<close> field is truthy, that is a non-empty string or an array
  (a repeated key, whatever its values); then the global is that field, whatever it held
  before, and the page confirms the save. For every other request the global is
  unchanged and the page is the error page or the form. A non-empty field is truthy, and
  a field that is not an array is truthy exactly when it is non-empty.
\<close>

theorem C10_configure_frame:
  "(\<exists>pg. fst (configureHandler parse_key args g) = Inr pg) \<and>
   (snd (configureHandler parse_key args g) \<noteq> g \<longrightarrow>
      arg_method args = ''POST'' \<and> body_truthy (arg_body args) \<and>
      truthy (parse_key (body_toString (arg_body args)))) \<and>
   (arg_method args = ''POST'' \<and> body_truthy (arg_body args) \<and>
    truthy (parse_key (body_toString (arg_body args))) \<longrightarrow>
      configureHandler parse_key args g =
        (Inr ConfigurationSaved, parse_key (body_toString (arg_body args)))) \<and>
   (\<not> (arg_method args = ''POST'' \<and> body_truthy (arg_body args) \<and>
       truthy (parse_key (body_toString (arg_body args)))) \<longrightarrow>
      snd (configureHandler parse_key args g) = g \<and>
      fst (configureHandler parse_key args g) \<in> {Inr ConfigurationError, Inr ConfigurationForm}) \<and>
   truthy v = (v \<noteq> Undefined \<and> v \<noteq> Str []) \<and>
   (nonempty_field v \<longrightarrow> truthy v) \<and>
   ((\<forall>xs. v \<noteq> Arr xs) \<longrightarrow> truthy v = nonempty_field v)"
proof (intro conjI)
  show "truthy v = (v \<noteq> Undefined \<and> v \<noteq> Str [])" by (cases v) simp_all
  show "nonempty_field v \<longrightarrow> truthy v" by (cases v) simp_all
  show "(\<forall>xs. v \<noteq> Arr xs) \<longrightarrow> truthy v = nonempty_field v" by (cases v) simp_all
qed (simp_all add: configureHandler_def Let_def)

theorem C10_configure_frame_witness:
  "configureHandler qs_field
     \<lparr>arg_method = ''POST'', arg_body = TextBody ''DEBRID_API_KEY=abc''\<rparr> (Str ''old'') =
     (Inr ConfigurationSaved, Str ''abc'') \<and>
   snd (configureHandler qs_field
     \<lparr>arg_method = ''POST'', arg_body = BufferBody ''DEBRID_API_KEY=''\<rparr> (Str ''old'')) =
     Str ''old'' \<and>
   snd (configureHandler qs_field \<lparr>arg_method = ''GET'', arg_body = NoBody\<rparr> (Str ''old'')) =
     Str ''old'' \<and>
   configureHandler qs_field
     \<lparr>arg_method = ''POST'', arg_body = TextBody ''DEBRID_API_KEY=&DEBRID_API_KEY=''\<rparr>
     (Str ''old'') = (Inr ConfigurationSaved, Arr [[], []])"
proof -
  have a: "qs_field ''DEBRID_API_KEY=abc'' = Str ''abc''" by (simp add: qs_field_def qs_values_def)
  have b: "qs_field ''DEBRID_API_KEY='' = Str []" by (simp add: qs_field_def qs_values_def)
  have c: "qs_field ''DEBRID_API_KEY=&DEBRID_API_KEY='' = Arr [[], []]" by (simp add: qs_field_def qs_values_def)
  have 1: "configureHandler qs_field
     \<lparr>arg_method = ''POST'', arg_body = TextBody ''DEBRID_API_KEY=abc''\<rparr> (Str ''old'') =
     (Inr ConfigurationSaved, Str ''abc'')"
    using C10_configure_frame[of qs_field
        "\<lparr>arg_method = ''POST'', arg_body = TextBody ''DEBRID_API_KEY=abc''\<rparr>" "Str ''old''",
        THEN conjunct2, THEN conjunct2, THEN conjunct1]
    by (simp add: a)
  have 2: "snd (configureHandler qs_field
     \<lparr>arg_method = ''POST'', arg_body = BufferBody ''DEBRID_API_KEY=''\<rparr> (Str ''old'')) =
     Str ''old''"
    using C10_configure_frame[of qs_field
        "\<lparr>arg_method = ''POST'', arg_body = BufferBody ''DEBRID_API_KEY=''\<rparr>" "Str ''old''",
        THEN conjunct2, THEN conjunct2, THEN conjunct2, THEN conjunct1]
    by (simp add: b)
  have 3: "snd (configureHandler qs_field \<lparr>arg_method = ''GET'', arg_body = NoBody\<rparr>
             (Str ''old'')) = Str ''old''"
    using C10_configure_frame[of qs_field "\<lparr>arg_method = ''GET'', arg_body = NoBody\<rparr>"
        "Str ''old''", THEN conjunct2, THEN conjunct2, THEN conjunct2, THEN conjunct1]
    by simp
  have 4: "configureHandler qs_field
     \<lparr>arg_method = ''POST'', arg_body = TextBody ''DEBRID_API_KEY=&DEBRID_API_KEY=''\<rparr>
     (Str ''old'') = (Inr ConfigurationSaved, Arr [[], []])"
    using C10_configure_frame[of qs_field
        "\<lparr>arg_method = ''POST'', arg_body = TextBody ''DEBRID_API_KEY=&DEBRID_API_KEY=''\<rparr>"
        "Str ''old''", THEN conjunct2, THEN conjunct2, THEN conjunct1]
    by (simp add: c)
  from 1 2 3 4 show ?thesis by blast
qed

end
